theory Spec2Isabelle
  imports Main "HOL-Library.Word" "HOL-Library.Sublist" "HOL-Library.Extended_Nat"
begin

unbundle bit_operations_syntax

section \<open>Values, exceptions and the object store\<close>

text \<open>
  The element type of \<^verbatim>\<open>array.array("B")\<close> is an unsigned char. Python exceptions
  are values of \<open>error\<close>; \<open>InvalidArgument\<close> is the failure of the bit-literal decoder,
  which the specification names.
\<close>

type_synonym byte = "8 word"

datatype error = AssertionError | TypeError | IndexError | InvalidArgument

text \<open>
  Arrays are mutable objects: the store maps an address to the content of the array that
  lives there, \<open>next_free\<close> is the first address never handed out, and \<open>files\<close> is the
  file system read by the constructor. A \<open>Zoon\<close> holds the address of its private
  \<^verbatim>\<open>__byteseq\<close> array (its \<^verbatim>\<open>_initializer\<close> field is read by \<^verbatim>\<open>__repr__\<close> only and is
  left out).
\<close>

record store =
  arrays :: "nat \<Rightarrow> byte list"
  next_free :: nat
  files :: "string \<Rightarrow> byte list option"

datatype Zoon = Zoon (byteseq: nat)

datatype ZoonInit = FromPath string | FromStr string | FromZoon Zoon | FromOther

definition new_array :: "store \<Rightarrow> nat \<times> store" where
  "new_array s =
     (next_free s, s\<lparr>arrays := (arrays s)(next_free s := []), next_free := Suc (next_free s)\<rparr>)"

definition array_extend :: "nat \<Rightarrow> byte list \<Rightarrow> store \<Rightarrow> store" where
  "array_extend a bs s = s\<lparr>arrays := (arrays s)(a := arrays s a @ bs)\<rparr>"

definition well_formed :: "store \<Rightarrow> Zoon \<Rightarrow> bool" where
  "well_formed s z = (byteseq z < next_free s)"

definition bytes_of :: "store \<Rightarrow> Zoon \<Rightarrow> byte list" where
  "bytes_of s z = arrays s (byteseq z)"

section \<open>Helpers of utils\<close>

text \<open>
  Modelled from the spec: \<^verbatim>\<open>utils.toggle_bit_in_byte\<close> is not among the sources. The
  specification says that the addressed bit is inverted by an exclusive or with the
  single-bit mask of the given weight.
\<close>

definition toggle_bit_in_byte :: "nat \<Rightarrow> byte \<Rightarrow> byte" where
  "toggle_bit_in_byte k b = b XOR push_bit k 1"

text \<open>
  Modelled from the spec: \<^verbatim>\<open>utils.to_bytes\<close> is not among the sources. The specification
  says: given a string over the alphabet 0/1 whose length is a multiple of 8, each
  consecutive group of 8 characters is packed, most significant bit first, into one byte,
  in order; anything else fails with InvalidArgument.
\<close>

definition bit_of :: "char \<Rightarrow> byte" where
  "bit_of c = (if c = CHR ''1'' then 1 else 0)"

definition pack8 :: "string \<Rightarrow> byte" where
  "pack8 cs = foldl (\<lambda>acc c. push_bit 1 acc OR bit_of c) 0 cs"

fun pack :: "string \<Rightarrow> byte list" where
  "pack s = (if s = [] then [] else pack8 (take 8 s) # pack (drop 8 s))"

declare pack.simps [simp del]

definition to_bytes :: "string \<Rightarrow> error + byte list" where
  "to_bytes s =
     (if set s \<subseteq> {CHR ''0'', CHR ''1''} \<and> length s mod 8 = 0 then Inr (pack s)
      else Inl InvalidArgument)"

section \<open>The class Zoon\<close>

text \<open>
  \<^verbatim>\<open>Zoon.__init__\<close>: a fresh empty array is created first; then the initializer is
  dispatched on its dynamic type, in the order Path, str, Zoon, anything else.
\<close>

definition Zoon_init :: "ZoonInit \<Rightarrow> store \<Rightarrow> error + Zoon \<times> store" where
  "Zoon_init initializer s =
     (let (a, s1) = new_array s in
      case initializer of
        FromPath path \<Rightarrow>
          (case files s1 path of
             None \<Rightarrow> Inl AssertionError
           | Some content \<Rightarrow> Inr (Zoon a, array_extend a content s1))
      | FromStr str \<Rightarrow>
          if \<not> set str \<subseteq> {CHR ''0'', CHR ''1''} then Inl AssertionError
          else (case to_bytes str of
                  Inl e \<Rightarrow> Inl e
                | Inr bs \<Rightarrow> Inr (Zoon a, array_extend a bs s1))
      | FromZoon other \<Rightarrow> Inr (Zoon a, array_extend a (arrays s1 (byteseq other)) s1)
      | FromOther \<Rightarrow> Inl TypeError)"

text \<open>\<^verbatim>\<open>Zoon.__len__\<close>: the length in bits.\<close>

definition len :: "store \<Rightarrow> Zoon \<Rightarrow> int" where
  "len s z = int (length (arrays s (byteseq z))) * 8"

text \<open>
  Subscripting an array with a Python integer: a negative index counts from the end,
  and an index outside the array raises IndexError.
\<close>

definition subscript :: "int \<Rightarrow> nat \<Rightarrow> error + nat" where
  "subscript i n =
     (let j = (if i < 0 then i + int n else i)
      in if 0 \<le> j \<and> j < int n then Inr (nat j) else Inl IndexError)"

text \<open>
  \<^verbatim>\<open>Zoon.mutate\<close>: \<^verbatim>\<open>divmod(position, 8)\<close>, a copy of the receiver, and an in-place
  store into the copy's array of the byte with bit \<^verbatim>\<open>7 - bit\<close> toggled.
\<close>

definition mutate :: "Zoon \<Rightarrow> int \<Rightarrow> store \<Rightarrow> error + Zoon \<times> store" where
  "mutate self position s =
     (let byte = position div 8; bit = position mod 8 in
      case Zoon_init (FromZoon self) s of
        Inl e \<Rightarrow> Inl e
      | Inr (mutant, s1) \<Rightarrow>
          (let a = byteseq mutant; bs = arrays s1 a in
           case subscript byte (length bs) of
             Inl e \<Rightarrow> Inl e
           | Inr k \<Rightarrow>
               Inr (mutant,
                    s1\<lparr>arrays := (arrays s1)
                          (a := bs[k := toggle_bit_in_byte (nat (7 - bit)) (bs ! k)])\<rparr>)))"

text \<open>
  Python slices never raise: a bound is counted from the end when negative and then
  clamped to the length of the sequence.
\<close>

definition slice_bound :: "int \<Rightarrow> nat \<Rightarrow> nat" where
  "slice_bound i n = (if i < 0 then nat (max 0 (i + int n)) else min (nat i) n)"

definition slice_to :: "int \<Rightarrow> 'a list \<Rightarrow> 'a list" where
  "slice_to i xs = take (slice_bound i (length xs)) xs"

definition slice_from :: "int \<Rightarrow> 'a list \<Rightarrow> 'a list" where
  "slice_from i xs = drop (slice_bound i (length xs)) xs"

text \<open>
  \<^verbatim>\<open>Zoon.delete\<close>: a copy of the receiver, whose \<^verbatim>\<open>byteseq\<close> setter then binds it to a
  new array built from the two slices of the copy.
\<close>

definition delete :: "Zoon \<Rightarrow> int \<Rightarrow> int \<Rightarrow> store \<Rightarrow> error + Zoon \<times> store" where
  "delete self start stop s =
     (case Zoon_init (FromZoon self) s of
        Inl e \<Rightarrow> Inl e
      | Inr (mutant, s1) \<Rightarrow>
          (let bs = arrays s1 (byteseq mutant);
               new_list = slice_to start bs @ slice_from stop bs;
               (a, s2) = new_array s1
           in Inr (Zoon a, array_extend a new_list s2)))"

section \<open>The Process Runner\<close>

text \<open>
  \<^verbatim>\<open>RunResult = Tuple[int, str, str, str]\<close>: exit code, status kind, captured standard
  output, error detail.
\<close>

type_synonym RunResult = "int \<times> string \<times> string \<times> string"

definition exit_code :: "RunResult \<Rightarrow> int" where
  "exit_code r = fst r"

definition status_kind :: "RunResult \<Rightarrow> string" where
  "status_kind r = fst (snd r)"

definition stdout_text :: "RunResult \<Rightarrow> string" where
  "stdout_text r = fst (snd (snd r))"

definition error_detail :: "RunResult \<Rightarrow> string" where
  "error_detail r = snd (snd (snd r))"

text \<open>
  The host on which commands run is a parameter: it says, for a command line, whether the
  named executable cannot be found (and which path is missing) or which process is
  started. A process is described by its run time in seconds (infinite when it never
  ends), its exit status and what it writes to its two streams.
\<close>

record process =
  run_time :: enat
  exit_status :: int
  stdout :: string
  stderr :: string

datatype launch = LaunchFailed string | Launched process

type_synonym host = "string \<Rightarrow> launch"

definition quoted :: "string \<Rightarrow> string" where
  "quoted p = CHR 0x27 # p @ [CHR 0x27]"

definition no_such_file :: "string \<Rightarrow> string" where
  "no_such_file p = ''[Errno 2] No such file or directory: '' @ quoted p @ '': '' @ quoted p"

text \<open>
  Modelled from the spec: \<^verbatim>\<open>run.run\<close> (the Process Runner) is not among the sources; only
  its tests are. The classification follows section 4.2 of the specification: exit status
  0 gives success with the captured output; a non-zero exit status gives
  calledprocesserror with that status and two empty strings, the captured error stream
  being discarded; an executable that cannot be launched gives filenotfounderror with the
  fixed code 2 and a message naming the path; a run that outlasts the timeout gives
  timeoutexpired with the fixed code 124. The status kinds are the strings the tests
  compare with, and the message of the launch failure is the one
  \<^verbatim>\<open>test_run_badpath\<close> expects.
\<close>

definition run :: "host \<Rightarrow> string \<Rightarrow> nat \<Rightarrow> RunResult" where
  "run h command timeout =
     (case h command of
        LaunchFailed path \<Rightarrow> (2, ''filenotfounderror'', [], no_such_file path)
      | Launched p \<Rightarrow>
          if enat timeout < run_time p then (124, ''timeoutexpired'', [], [])
          else if exit_status p = 0 then (0, ''success'', stdout p, [])
          else (exit_status p, ''calledprocesserror'', [], []))"

subsection \<open>The assertions of t/test\_run.py\<close>

text \<open>
  Each test is the predicate its assertions put on the tuple \<open>observed\<close> that the call of
  \<^verbatim>\<open>run\<close> returned; \<^verbatim>\<open>in\<close> on strings is the contiguous-substring test.
\<close>

datatype platform = Darwin | Linux | OtherPlatform

definition BADPATH :: string where
  "BADPATH = ''/u/jane/me/tarzan''"

definition ls_BADPATH :: string where
  "ls_BADPATH = ''ls '' @ BADPATH"


definition test_run_fail :: "platform \<Rightarrow> RunResult \<Rightarrow> bool" where
  "test_run_fail pf observed =
     ((pf = Darwin \<or> pf = Linux)
      \<and> (if pf = Darwin then exit_code observed = 1
         else if pf = Linux then exit_code observed = 2 else True)
      \<and> (status_kind observed, stdout_text observed) = (''calledprocesserror'', [])
      \<and> sublist (''No such file or directory'' @ [CHR 0x0A]) (error_detail observed))"

definition test_run_badpath :: "RunResult \<Rightarrow> bool" where
  "test_run_badpath observed =
     (observed =
        (2, ''filenotfounderror'', [],
         ''[Errno 2] No such file or directory: '' @ [CHR 0x27] @ BADPATH @ [CHR 0x27]
           @ '': '' @ [CHR 0x27] @ BADPATH @ [CHR 0x27]))"

definition test_run_timeout :: "RunResult \<Rightarrow> bool" where
  "test_run_timeout observed = (observed = (124, ''timeoutexpired'', [], []))"

definition test_run_no_timeout :: "RunResult \<Rightarrow> bool" where
  "test_run_no_timeout observed = (observed = (0, ''success'', [], []))"

subsection \<open>Concrete hosts and stores\<close>

definition ls_badpath :: process where
  "ls_badpath =
     \<lparr>run_time = 0, exit_status = 2, stdout = [],
      stderr = ''ls: cannot access '' @ quoted BADPATH
                 @ '': No such file or directory'' @ [CHR 0x0A]\<rparr>"

definition sleep_then_fail :: process where
  "sleep_then_fail = \<lparr>run_time = 2, exit_status = 1, stdout = [], stderr = []\<rparr>"

definition false_process :: process where
  "false_process = \<lparr>run_time = 0, exit_status = 1, stdout = [], stderr = []\<rparr>"

definition sleep_2 :: process where
  "sleep_2 = \<lparr>run_time = 2, exit_status = 0, stdout = [], stderr = []\<rparr>"

definition example_host :: host where
  "example_host command =
     (if command = ls_BADPATH then Launched ls_badpath
      else if command = ''/bin/false'' then Launched false_process
      else if command = ''sleep 2'' then Launched sleep_2
      else if command = ''./sleep_then_fail'' then Launched sleep_then_fail
      else LaunchFailed command)"

definition empty_store :: store where
  "empty_store = \<lparr>arrays = (\<lambda>_. []), next_free = 0, files = (\<lambda>_. None)\<rparr>"

definition store_a :: store where
  "store_a = \<lparr>arrays = (\<lambda>_. [])(0 := [0x61, 0x62, 0x63]), next_free = 1, files = (\<lambda>_. None)\<rparr>"

section \<open>Copy construction and subscripts\<close>

lemma Zoon_init_copy_wf:
  "well_formed s z \<Longrightarrow>
   Zoon_init (FromZoon z) s =
     Inr (Zoon (next_free s),
          s\<lparr>arrays := (arrays s)(next_free s := bytes_of s z),
            next_free := Suc (next_free s)\<rparr>)"
  by (simp add: Zoon_init_def new_array_def array_extend_def well_formed_def bytes_of_def)

lemma subscript_in_range:
  "0 \<le> i \<Longrightarrow> i < int n \<Longrightarrow> subscript i n = Inr (nat i)"
  by (simp add: subscript_def)

lemma subscript_beyond:
  "int n \<le> i \<Longrightarrow> subscript i n = Inl IndexError"
  by (simp add: subscript_def)

section \<open>Point mutation\<close>

lemma mutate_in_range:
  assumes "well_formed s z" "0 \<le> p" "p < len s z"
  shows "mutate z p s =
     Inr (Zoon (next_free s),
          s\<lparr>arrays := (arrays s)(next_free s :=
                (bytes_of s z)[nat (p div 8) :=
                   toggle_bit_in_byte (7 - nat (p mod 8)) (bytes_of s z ! nat (p div 8))]),
            next_free := Suc (next_free s)\<rparr>)"
proof -
  have "0 \<le> p div 8" "p div 8 < int (length (bytes_of s z))"
    using assms by (auto simp: len_def bytes_of_def)
  then have sub: "subscript (p div 8) (length (bytes_of s z)) = Inr (nat (p div 8))"
    by (rule subscript_in_range)
  have k: "nat (7 - p mod 8) = 7 - nat (p mod 8)"
    by (simp add: nat_diff_distrib')
  show ?thesis
    using sub by (simp add: mutate_def Zoon_init_copy_wf [OF assms(1)] Let_def k)
qed

lemma mutate_beyond:
  assumes "well_formed s z" "len s z \<le> p"
  shows "mutate z p s = Inl IndexError"
proof -
  have "int (length (bytes_of s z)) \<le> p div 8"
    using assms(2) by (auto simp: len_def bytes_of_def)
  then have "subscript (p div 8) (length (bytes_of s z)) = Inl IndexError"
    by (rule subscript_beyond)
  then show ?thesis
    by (simp add: mutate_def Zoon_init_copy_wf [OF assms(1)] Let_def)
qed

lemma toggle_twice: "toggle_bit_in_byte k (toggle_bit_in_byte k b) = b"
  by (simp add: toggle_bit_in_byte_def xor.assoc)

lemma toggle_weight: "toggle_bit_in_byte k b = b XOR 2 ^ k"
  by (simp add: toggle_bit_in_byte_def)

section \<open>Deletion\<close>

lemma delete_result:
  assumes "well_formed s z"
  shows "delete z start stop s =
     Inr (Zoon (Suc (next_free s)),
          s\<lparr>arrays := (arrays s)
               (next_free s := bytes_of s z,
                Suc (next_free s) :=
                  slice_to start (bytes_of s z) @ slice_from stop (bytes_of s z)),
            next_free := Suc (Suc (next_free s))\<rparr>)"
  by (simp add: delete_def Zoon_init_copy_wf [OF assms] Let_def new_array_def array_extend_def)

lemma slice_to_nonneg: "0 \<le> i \<Longrightarrow> slice_to i xs = take (nat i) xs"
  by (simp add: slice_to_def slice_bound_def min_def)

lemma slice_from_nonneg: "0 \<le> i \<Longrightarrow> slice_from i xs = drop (nat i) xs"
  by (simp add: slice_from_def slice_bound_def min_def)

section \<open>Construction from a bit literal\<close>

lemma pack_literal_a: "pack ''01100001'' = [0x61]"
  by (simp add: pack.simps pack8_def bit_of_def)

lemma Zoon_init_literal_a:
  "Zoon_init (FromStr ''01100001'') s =
     Inr (Zoon (next_free s),
          s\<lparr>arrays := (arrays s)(next_free s := [0x61]), next_free := Suc (next_free s)\<rparr>)"
  by (simp add: Zoon_init_def new_array_def array_extend_def to_bytes_def pack_literal_a)

lemma bit_pack_step:
  "bit (push_bit 1 (x :: byte) OR bit_of c) k \<longleftrightarrow>
     (k = 0 \<and> c = CHR ''1'') \<or> (0 < k \<and> k < 8 \<and> bit x (k - 1))"
  unfolding bit_or_iff bit_push_bit_iff
  by (cases k) (auto simp: bit_of_def bit_1_iff)

lemma bit_pack8:
  "k < 8 \<Longrightarrow> bit (pack8 cs) k \<longleftrightarrow> k < length cs \<and> cs ! (length cs - 1 - k) = CHR ''1''"
proof (induction cs arbitrary: k rule: rev_induct)
  case Nil
  then show ?case by (simp add: pack8_def)
next
  case (snoc c cs)
  have step: "pack8 (cs @ [c]) = push_bit 1 (pack8 cs) OR bit_of c"
    by (simp add: pack8_def)
  show ?case
  proof (cases k)
    case 0
    then show ?thesis
      unfolding step bit_pack_step by simp
  next
    case (Suc k')
    then have "k' < 8"
      using snoc.prems by simp
    then have ih: "bit (pack8 cs) k' \<longleftrightarrow> k' < length cs \<and> cs ! (length cs - 1 - k') = CHR ''1''"
      by (rule snoc.IH)
    show ?thesis
      unfolding step bit_pack_step using Suc snoc.prems ih
      by (auto simp: nth_append)
  qed
qed

lemma pack_Nil: "pack [] = []"
  by (simp add: pack.simps)

lemma pack_nonempty: "s \<noteq> [] \<Longrightarrow> pack s = pack8 (take 8 s) # pack (drop 8 s)"
  by (subst pack.simps) simp

lemma length_pack: "length s mod 8 = 0 \<Longrightarrow> length (pack s) = length s div 8"
proof (induction s rule: pack.induct)
  case (1 s)
  show ?case
  proof (cases "s = []")
    case True
    then show ?thesis by (simp add: pack_Nil)
  next
    case False
    with "1.prems" have ge: "8 \<le> length s"
      by (cases "length s < 8") auto
    then have "length (drop 8 s) mod 8 = 0"
      using "1.prems" by (simp add: le_mod_geq [symmetric])
    then have "length (pack (drop 8 s)) = length (drop 8 s) div 8"
      using False by (rule "1.IH" [rotated])
    then show ?thesis
      using False ge by (simp add: pack_nonempty le_div_geq)
  qed
qed

lemma nth_pack:
  "length s mod 8 = 0 \<Longrightarrow> i < length s div 8 \<Longrightarrow>
   pack s ! i = pack8 (take 8 (drop (8 * i) s))"
proof (induction s arbitrary: i rule: pack.induct)
  case (1 s)
  from "1.prems"(2) have ne: "s \<noteq> []"
    by auto
  with "1.prems"(1) have ge: "8 \<le> length s"
    by (cases "length s < 8") auto
  show ?case
  proof (cases i)
    case 0
    then show ?thesis by (simp add: pack_nonempty [OF ne])
  next
    case (Suc j)
    have m: "length (drop 8 s) mod 8 = 0"
      using "1.prems"(1) ge by (simp add: le_mod_geq [symmetric])
    have "Suc j < length s div 8"
      using "1.prems"(2) Suc by simp
    then have j: "j < length (drop 8 s) div 8"
      using ge by (simp add: le_div_geq)
    have "pack (drop 8 s) ! j = pack8 (take 8 (drop (8 * j) (drop 8 s)))"
      using ne m j by (rule "1.IH")
    then show ?thesis
      using Suc by (simp add: pack_nonempty [OF ne] add.commute)
  qed
qed

lemma Zoon_init_str_ok:
  "set str \<subseteq> {CHR ''0'', CHR ''1''} \<Longrightarrow> length str mod 8 = 0 \<Longrightarrow>
   Zoon_init (FromStr str) s =
     Inr (Zoon (next_free s),
          s\<lparr>arrays := (arrays s)(next_free s := pack str), next_free := Suc (next_free s)\<rparr>)"
  by (simp add: Zoon_init_def new_array_def array_extend_def to_bytes_def)

section \<open>Out-of-range deletion\<close>

lemma slice_from_clamped:
  "int (length xs) < stop \<Longrightarrow> slice_from stop xs = slice_from (int (length xs)) xs"
  by (simp add: slice_from_def slice_bound_def)

lemma overlap_split:
  fixes xs :: "'a list"
  assumes "b < a"
  shows "take a xs @ drop b xs =
           take b xs @ drop b (take a xs) @ drop b (take a xs) @ drop (min a (length xs)) xs"
proof -
  have t: "take a xs = take b xs @ drop b (take a xs)"
  proof -
    have "take b (take a xs) = take b xs"
      using assms by (simp add: min_def)
    then show ?thesis
      by (metis append_take_drop_id)
  qed
  have d: "drop b xs = drop b (take a xs) @ drop (min a (length xs)) xs"
  proof -
    have "drop b xs = drop b (take a xs @ drop a xs)"
      by simp
    also have "\<dots> = drop b (take a xs) @ drop (b - min a (length xs)) (drop a xs)"
      by (simp only: drop_append length_take min.commute)
    also have "drop (b - min a (length xs)) (drop a xs) = drop (min a (length xs)) xs"
      using assms by (cases "a \<le> length xs") (simp_all add: min_def)
    finally show ?thesis .
  qed
  show ?thesis
    using t d by (metis append.assoc)
qed

section \<open>Outcomes of the Process Runner\<close>

lemma run_launch_failed:
  "h command = LaunchFailed path \<Longrightarrow>
   run h command timeout = (2, ''filenotfounderror'', [], no_such_file path)"
  by (simp add: run_def)

lemma run_timed_out:
  "h command = Launched p \<Longrightarrow> enat timeout < run_time p \<Longrightarrow>
   run h command timeout = (124, ''timeoutexpired'', [], [])"
  by (simp add: run_def)

lemma run_completed:
  "h command = Launched p \<Longrightarrow> \<not> enat timeout < run_time p \<Longrightarrow>
   run h command timeout =
     (if exit_status p = 0 then (0, ''success'', stdout p, [])
      else (exit_status p, ''calledprocesserror'', [], []))"
  by (simp add: run_def)

lemma example_host_ls: "example_host ls_BADPATH = Launched ls_badpath"
  by (simp add: example_host_def)

lemma example_host_sleep_fail: "example_host ''./sleep_then_fail'' = Launched sleep_then_fail"
  by (simp add: example_host_def ls_BADPATH_def)



lemma example_host_sleep: "example_host ''sleep 2'' = Launched sleep_2"
  by (simp add: example_host_def ls_BADPATH_def)

lemma example_host_badpath: "example_host BADPATH = LaunchFailed BADPATH"
  by (simp add: example_host_def ls_BADPATH_def BADPATH_def)

lemma ls_badpath_in_time: "\<not> enat 1 < run_time ls_badpath"
  by (simp add: ls_badpath_def zero_enat_def [symmetric])


text \<open>
  The last assertion of \<^verbatim>\<open>test_run_fail\<close> looks for the message of \<^verbatim>\<open>ls\<close> in the
  fourth field of the result, so no result with an empty fourth field passes that test;
  the runner of the specification leaves the field empty after a non-zero exit.
\<close>

lemma test_run_fail_error_detail: "test_run_fail pf observed \<Longrightarrow> error_detail observed \<noteq> []"
  by (auto simp: test_run_fail_def)

lemma run_ls_badpath: "run example_host ls_BADPATH 1 = (2, ''calledprocesserror'', [], [])"
  using run_completed [where h = example_host, OF example_host_ls ls_badpath_in_time]
  by (simp add: ls_badpath_def)

lemma run_ls_badpath_test: "\<not> test_run_fail Linux (run example_host ls_BADPATH 1)"
  unfolding run_ls_badpath by (simp add: test_run_fail_def error_detail_def)

lemma sleep_then_fail_times: "enat 1 < run_time sleep_then_fail" "run_time sleep_then_fail < enat 3"
  by (simp_all add: sleep_then_fail_def numeral_eq_enat)

lemma sleep_2_times: "enat 1 < run_time sleep_2" "run_time sleep_2 < enat 3"
  by (simp_all add: sleep_2_def numeral_eq_enat)

section \<open>Claims about the class Zoon\<close>

text \<open>
  C2. For an entity \<open>e\<close> of the store and a position \<open>p\<close> with \<open>0 \<le> p < len e\<close>,
  \<open>mutate\<close> returns a new entity (its array is not the receiver's) whose bytes are those
  of \<open>e\<close> except that byte \<open>p div 8\<close> is combined by exclusive or with the one-bit mask
  of weight \<open>2 ^ (7 - p mod 8)\<close>. The entity built from the bit literal 01100001 holds the
  single byte 0x61, and \<open>mutate\<close> at position 0 gives the single byte 0xE1.
\<close>

theorem C2_mutate_flips_one_bit:
  "(well_formed s e \<and> 0 \<le> p \<and> p < len s e \<longrightarrow>
      (\<exists>m s'. mutate e p s = Inr (m, s') \<and> byteseq m \<noteq> byteseq e
         \<and> bytes_of s' m =
             (bytes_of s e)[nat (p div 8) :=
                bytes_of s e ! nat (p div 8) XOR 2 ^ (7 - nat (p mod 8))]))
   \<and> (\<exists>e0 s1 m s2. Zoon_init (FromStr ''01100001'') s0 = Inr (e0, s1)
         \<and> bytes_of s1 e0 = [0x61]
         \<and> mutate e0 0 s1 = Inr (m, s2) \<and> bytes_of s2 m = [0xE1])"
proof (intro conjI impI)
  assume a: "well_formed s e \<and> 0 \<le> p \<and> p < len s e"
  then have "mutate e p s =
     Inr (Zoon (next_free s),
          s\<lparr>arrays := (arrays s)(next_free s :=
                (bytes_of s e)[nat (p div 8) :=
                   toggle_bit_in_byte (7 - nat (p mod 8)) (bytes_of s e ! nat (p div 8))]),
            next_free := Suc (next_free s)\<rparr>)"
    by (simp add: mutate_in_range)
  moreover have "byteseq (Zoon (next_free s)) \<noteq> byteseq e"
    using a by (simp add: well_formed_def)
  ultimately show "\<exists>m s'. mutate e p s = Inr (m, s') \<and> byteseq m \<noteq> byteseq e
         \<and> bytes_of s' m =
             (bytes_of s e)[nat (p div 8) :=
                bytes_of s e ! nat (p div 8) XOR 2 ^ (7 - nat (p mod 8))]"
    by (simp add: bytes_of_def toggle_weight)
next
  let ?e0 = "Zoon (next_free s0)"
  let ?s1 = "s0\<lparr>arrays := (arrays s0)(next_free s0 := [0x61]), next_free := Suc (next_free s0)\<rparr>"
  have wf: "well_formed ?s1 ?e0"
    by (simp add: well_formed_def)
  have b: "bytes_of ?s1 ?e0 = [0x61]"
    by (simp add: bytes_of_def)
  have l: "0 < len ?s1 ?e0"
    by (simp add: len_def)
  have "\<exists>m s2. mutate ?e0 0 ?s1 = Inr (m, s2) \<and> bytes_of s2 m = [0xE1]"
    using mutate_in_range [OF wf _ l]
    by (simp add: b bytes_of_def toggle_bit_in_byte_def)
  then show "\<exists>e0 s1 m s2. Zoon_init (FromStr ''01100001'') s0 = Inr (e0, s1)
         \<and> bytes_of s1 e0 = [0x61]
         \<and> mutate e0 0 s1 = Inr (m, s2) \<and> bytes_of s2 m = [0xE1]"
    using b by (simp add: Zoon_init_literal_a)
qed

theorem C2_witness:
  "well_formed store_a (Zoon 0) \<and> (0::int) \<le> 9 \<and> 9 < len store_a (Zoon 0)
   \<and> (\<exists>m s'. mutate (Zoon 0) 9 store_a = Inr (m, s') \<and> byteseq m \<noteq> 0
          \<and> bytes_of s' m = [0x61, 0x22, 0x63])"
proof -
  have wf: "well_formed store_a (Zoon 0) \<and> (0::int) \<le> 9 \<and> 9 < len store_a (Zoon 0)"
    by (simp add: well_formed_def len_def store_a_def)
  have b: "bytes_of store_a (Zoon 0) = [0x61, 0x62, 0x63]"
    by (simp add: bytes_of_def store_a_def)
  show ?thesis
    using wf C2_mutate_flips_one_bit [of store_a "Zoon 0" 9, THEN conjunct1, rule_format, OF wf]
    by (simp add: b)
qed

text \<open>
  C3. Point mutation is an involution: for an entity \<open>e\<close> and a valid position \<open>p\<close>,
  mutating at \<open>p\<close> and then mutating the result at \<open>p\<close> again both succeed, and the
  bytes of the second result are the bytes of \<open>e\<close>.
\<close>

theorem C3_mutate_involution:
  assumes "well_formed s e" "0 \<le> p" "p < len s e"
  shows "\<exists>m1 s1 m2 s2. mutate e p s = Inr (m1, s1) \<and> mutate m1 p s1 = Inr (m2, s2)
           \<and> bytes_of s2 m2 = bytes_of s e"
proof -
  let ?k = "nat (p div 8)"
  let ?bs = "bytes_of s e"
  let ?bs1 = "?bs[?k := toggle_bit_in_byte (7 - nat (p mod 8)) (?bs ! ?k)]"
  let ?m1 = "Zoon (next_free s)"
  let ?s1 = "s\<lparr>arrays := (arrays s)(next_free s := ?bs1), next_free := Suc (next_free s)\<rparr>"
  have first: "mutate e p s = Inr (?m1, ?s1)"
    using assms by (rule mutate_in_range)
  have wf1: "well_formed ?s1 ?m1"
    by (simp add: well_formed_def)
  have b1: "bytes_of ?s1 ?m1 = ?bs1"
    by (simp add: bytes_of_def)
  have len1: "p < len ?s1 ?m1"
    using assms(3) by (simp add: len_def bytes_of_def)
  have k: "?k < length ?bs"
    using assms(2,3) by (auto simp: len_def bytes_of_def)
  let ?bs2 = "?bs1[?k := toggle_bit_in_byte (7 - nat (p mod 8)) (?bs1 ! ?k)]"
  let ?m2 = "Zoon (Suc (next_free s))"
  let ?s2 = "?s1\<lparr>arrays := (arrays ?s1)(Suc (next_free s) := ?bs2),
                  next_free := Suc (Suc (next_free s))\<rparr>"
  have "mutate ?m1 p ?s1 = Inr (?m2, ?s2)"
    using mutate_in_range [OF wf1 assms(2) len1] by (simp add: b1)
  moreover have "bytes_of ?s2 ?m2 = ?bs"
    using k by (simp add: bytes_of_def toggle_twice)
  ultimately show ?thesis
    using first by blast
qed

theorem C3_witness:
  "well_formed store_a (Zoon 0) \<and> (0::int) \<le> 9 \<and> 9 < len store_a (Zoon 0)
   \<and> (\<exists>m1 s1 m2 s2. mutate (Zoon 0) 9 store_a = Inr (m1, s1) \<and> mutate m1 9 s1 = Inr (m2, s2)
           \<and> bytes_of s2 m2 = [0x61, 0x62, 0x63])"
proof -
  have wf: "well_formed store_a (Zoon 0)"
    by (simp add: well_formed_def store_a_def)
  have lt: "9 < len store_a (Zoon 0)"
    by (simp add: len_def store_a_def)
  have b: "bytes_of store_a (Zoon 0) = [0x61, 0x62, 0x63]"
    by (simp add: bytes_of_def store_a_def)
  show ?thesis
    using wf lt C3_mutate_involution [OF wf _ lt] by (simp add: b)
qed

text \<open>
  C4. Neither \<open>mutate\<close> at a valid position nor \<open>delete\<close> with any arguments changes the
  receiver: both return, the receiver's bytes in the new store are its bytes in the old
  one, the same holds for every entity of the old store, and the array of the result is a
  new one, which no entity of the old store refers to.
\<close>

theorem C4_receiver_unchanged:
  "well_formed s e \<Longrightarrow>
     (0 \<le> p \<and> p < len s e \<longrightarrow>
        (\<exists>m s'. mutate e p s = Inr (m, s') \<and> bytes_of s' e = bytes_of s e
           \<and> well_formed s' m \<and> \<not> well_formed s m
           \<and> (\<forall>z. well_formed s z \<longrightarrow> bytes_of s' z = bytes_of s z)))
     \<and> (\<exists>m s'. delete e start stop s = Inr (m, s') \<and> bytes_of s' e = bytes_of s e
           \<and> well_formed s' m \<and> \<not> well_formed s m
           \<and> (\<forall>z. well_formed s z \<longrightarrow> bytes_of s' z = bytes_of s z))"
proof (intro conjI impI)
  assume wf: "well_formed s e" and "0 \<le> p \<and> p < len s e"
  then have "mutate e p s =
     Inr (Zoon (next_free s),
          s\<lparr>arrays := (arrays s)(next_free s :=
                (bytes_of s e)[nat (p div 8) :=
                   toggle_bit_in_byte (7 - nat (p mod 8)) (bytes_of s e ! nat (p div 8))]),
            next_free := Suc (next_free s)\<rparr>)"
    by (simp add: mutate_in_range)
  then show "\<exists>m s'. mutate e p s = Inr (m, s') \<and> bytes_of s' e = bytes_of s e
           \<and> well_formed s' m \<and> \<not> well_formed s m
           \<and> (\<forall>z. well_formed s z \<longrightarrow> bytes_of s' z = bytes_of s z)"
    using wf by (simp add: bytes_of_def well_formed_def)
next
  assume wf: "well_formed s e"
  show "\<exists>m s'. delete e start stop s = Inr (m, s') \<and> bytes_of s' e = bytes_of s e
           \<and> well_formed s' m \<and> \<not> well_formed s m
           \<and> (\<forall>z. well_formed s z \<longrightarrow> bytes_of s' z = bytes_of s z)"
    using wf by (simp add: delete_result [OF wf] bytes_of_def well_formed_def)
qed

theorem C4_witness:
  "well_formed store_a (Zoon 0) \<and> (0::int) \<le> 9 \<and> 9 < len store_a (Zoon 0)
   \<and> (\<exists>m s'. mutate (Zoon 0) 9 store_a = Inr (m, s')
          \<and> bytes_of s' (Zoon 0) = [0x61, 0x62, 0x63])
   \<and> (\<exists>m s'. delete (Zoon 0) 1 2 store_a = Inr (m, s')
          \<and> bytes_of s' (Zoon 0) = [0x61, 0x62, 0x63])"
proof -
  have wf: "well_formed store_a (Zoon 0)"
    by (simp add: well_formed_def store_a_def)
  have r: "(0::int) \<le> 9 \<and> 9 < len store_a (Zoon 0)"
    by (simp add: len_def store_a_def)
  have b: "bytes_of store_a (Zoon 0) = [0x61, 0x62, 0x63]"
    by (simp add: bytes_of_def store_a_def)
  have "\<exists>m s'. mutate (Zoon 0) 9 store_a = Inr (m, s')
          \<and> bytes_of s' (Zoon 0) = [0x61, 0x62, 0x63]"
    using C4_receiver_unchanged [OF wf, of 9 1 2, THEN conjunct1, rule_format, OF r]
    unfolding b by blast
  moreover have "\<exists>m s'. delete (Zoon 0) 1 2 store_a = Inr (m, s')
          \<and> bytes_of s' (Zoon 0) = [0x61, 0x62, 0x63]"
    using C4_receiver_unchanged [OF wf, of 9 1 2, THEN conjunct2]
    unfolding b by blast
  ultimately show ?thesis
    using wf r by blast
qed

text \<open>
  C5. On an entity of \<open>n\<close> bytes, \<open>delete\<close> with \<open>0 \<le> start \<le> stop \<le> n\<close> returns an
  entity of \<open>n - (stop - start)\<close> bytes: the bytes before \<open>start\<close> followed by the bytes
  from \<open>stop\<close> on.
\<close>

theorem C5_delete_in_range:
  assumes "well_formed s e" "0 \<le> start" "start \<le> stop" "stop \<le> int (length (bytes_of s e))"
  shows "\<exists>m s'. delete e start stop s = Inr (m, s')
           \<and> int (length (bytes_of s' m)) = int (length (bytes_of s e)) - (stop - start)
           \<and> bytes_of s' m = take (nat start) (bytes_of s e) @ drop (nat stop) (bytes_of s e)"
proof -
  have "slice_to start (bytes_of s e) = take (nat start) (bytes_of s e)"
    using assms(2) by (rule slice_to_nonneg)
  moreover have "slice_from stop (bytes_of s e) = drop (nat stop) (bytes_of s e)"
    using assms(2,3) by (simp add: slice_from_nonneg)
  moreover have "int (length (take (nat start) (bytes_of s e) @ drop (nat stop) (bytes_of s e)))
                   = int (length (bytes_of s e)) - (stop - start)"
    using assms(2-4) by simp
  ultimately show ?thesis
    by (simp add: delete_result [OF assms(1)] bytes_of_def)
qed

theorem C5_witness:
  "well_formed store_a (Zoon 0) \<and> (0::int) \<le> 1 \<and> (1::int) \<le> 2
   \<and> 2 \<le> int (length (bytes_of store_a (Zoon 0)))
   \<and> (\<exists>m s'. delete (Zoon 0) 1 2 store_a = Inr (m, s')
          \<and> int (length (bytes_of s' m)) = 2 \<and> bytes_of s' m = [0x61, 0x63])"
proof -
  have wf: "well_formed store_a (Zoon 0)"
    by (simp add: well_formed_def store_a_def)
  have b: "bytes_of store_a (Zoon 0) = [0x61, 0x62, 0x63]"
    by (simp add: bytes_of_def store_a_def)
  have le: "2 \<le> int (length (bytes_of store_a (Zoon 0)))"
    by (simp add: b)
  show ?thesis
    using wf le C5_delete_in_range [OF wf _ _ le, of 1] by (simp add: b)
qed

text \<open>
  C9. At a position that is at least the length in bits, \<open>mutate\<close> fails with the
  IndexError of the array access; no entity is returned.
\<close>

theorem C9_mutate_out_of_range:
  "well_formed s e \<Longrightarrow> len s e \<le> position \<Longrightarrow> mutate e position s = Inl IndexError"
  by (rule mutate_beyond)

theorem C9_witness:
  "well_formed store_a (Zoon 0) \<and> len store_a (Zoon 0) \<le> 24
   \<and> mutate (Zoon 0) 24 store_a = Inl IndexError"
proof -
  have wf: "well_formed store_a (Zoon 0)"
    by (simp add: well_formed_def store_a_def)
  have le: "len store_a (Zoon 0) \<le> 24"
    by (simp add: len_def store_a_def)
  show ?thesis
    using wf le C9_mutate_out_of_range [OF wf le] by simp
qed

text \<open>
  C8, as stated: construction fails with InvalidArgument whenever the string has a
  character other than 0 and 1. The string 01100002 has eight characters, the last of
  them outside the alphabet; the assertion of the constructor rejects it before the
  decoder is called, so the failure is AssertionError and not InvalidArgument.
\<close>

theorem C8_counterexample:
  "\<not> set ''01100002'' \<subseteq> {CHR ''0'', CHR ''1''}
   \<and> length ''01100002'' mod 8 = 0
   \<and> Zoon_init (FromStr ''01100002'') empty_store = Inl AssertionError
   \<and> Zoon_init (FromStr ''01100002'') empty_store \<noteq> Inl InvalidArgument"
  by (simp add: Zoon_init_def new_array_def)

text \<open>
  C8, amended: construction from a bit literal fails with AssertionError, the assertion
  of the constructor, when the string has a character other than 0 and 1, and with
  InvalidArgument when its characters are all 0 or 1 and its length is not a multiple of
  8. Otherwise it succeeds with one byte for each group of 8 characters, in order, the
  \<open>j\<close>-th character of a group being the bit of weight \<open>2 ^ (7 - j)\<close> of its byte.
\<close>

theorem C8_bit_literal:
  "(\<not> set str \<subseteq> {CHR ''0'', CHR ''1''} \<longrightarrow>
      Zoon_init (FromStr str) s = Inl AssertionError)
   \<and> (set str \<subseteq> {CHR ''0'', CHR ''1''} \<and> length str mod 8 \<noteq> 0 \<longrightarrow>
      Zoon_init (FromStr str) s = Inl InvalidArgument)
   \<and> (set str \<subseteq> {CHR ''0'', CHR ''1''} \<and> length str mod 8 = 0 \<longrightarrow>
      (\<exists>z s'. Zoon_init (FromStr str) s = Inr (z, s')
         \<and> length (bytes_of s' z) = length str div 8
         \<and> (\<forall>i j. i < length str div 8 \<and> j < 8 \<longrightarrow>
               (bit (bytes_of s' z ! i) (7 - j) \<longleftrightarrow> str ! (8 * i + j) = CHR ''1''))))"
proof (intro conjI impI)
  assume "\<not> set str \<subseteq> {CHR ''0'', CHR ''1''}"
  then show "Zoon_init (FromStr str) s = Inl AssertionError"
    by (simp add: Zoon_init_def new_array_def)
next
  assume "set str \<subseteq> {CHR ''0'', CHR ''1''} \<and> length str mod 8 \<noteq> 0"
  then show "Zoon_init (FromStr str) s = Inl InvalidArgument"
    by (simp add: Zoon_init_def new_array_def to_bytes_def)
next
  assume a: "set str \<subseteq> {CHR ''0'', CHR ''1''} \<and> length str mod 8 = 0"
  let ?z = "Zoon (next_free s)"
  let ?s' = "s\<lparr>arrays := (arrays s)(next_free s := pack str), next_free := Suc (next_free s)\<rparr>"
  have init: "Zoon_init (FromStr str) s = Inr (?z, ?s')"
    using a by (simp add: Zoon_init_str_ok)
  have b: "bytes_of ?s' ?z = pack str"
    by (simp add: bytes_of_def)
  have l: "length (pack str) = length str div 8"
    using a by (simp add: length_pack)
  have bits: "bit (pack str ! i) (7 - j) \<longleftrightarrow> str ! (8 * i + j) = CHR ''1''"
    if "i < length str div 8 \<and> j < 8" for i j
  proof -
    have i: "i < length str div 8" and j: "j < 8"
      using that by simp_all
    have "8 * i + 8 \<le> length str"
      using i a by presburger
    then have len8: "length (take 8 (drop (8 * i) str)) = 8"
      by simp
    have "pack str ! i = pack8 (take 8 (drop (8 * i) str))"
      using a i by (simp add: nth_pack)
    moreover have "bit (pack8 (take 8 (drop (8 * i) str))) (7 - j) \<longleftrightarrow>
                     take 8 (drop (8 * i) str) ! j = CHR ''1''"
    proof -
      have k: "7 - j < 8" "8 - 1 - (7 - j) = j"
        using j by arith+
      show ?thesis
        unfolding bit_pack8 [OF k(1)] len8 k(2) using k(1) by blast
    qed
    moreover have "take 8 (drop (8 * i) str) ! j = str ! (8 * i + j)"
      using j \<open>8 * i + 8 \<le> length str\<close> by simp
    ultimately show ?thesis
      by simp
  qed
  show "\<exists>z s'. Zoon_init (FromStr str) s = Inr (z, s')
         \<and> length (bytes_of s' z) = length str div 8
         \<and> (\<forall>i j. i < length str div 8 \<and> j < 8 \<longrightarrow>
               (bit (bytes_of s' z ! i) (7 - j) \<longleftrightarrow> str ! (8 * i + j) = CHR ''1''))"
  proof (intro exI conjI allI impI)
    show "Zoon_init (FromStr str) s = Inr (?z, ?s')"
      by (rule init)
    show "length (bytes_of ?s' ?z) = length str div 8"
      by (simp only: b l)
    fix i j :: nat
    assume "i < length str div 8 \<and> j < 8"
    then show "bit (bytes_of ?s' ?z ! i) (7 - j) \<longleftrightarrow> str ! (8 * i + j) = CHR ''1''"
      by (simp only: b bits)
  qed
qed

theorem C8_witness:
  "\<not> set ''01100002'' \<subseteq> {CHR ''0'', CHR ''1''}
   \<and> Zoon_init (FromStr ''01100002'') empty_store = Inl AssertionError
   \<and> set ''0110000'' \<subseteq> {CHR ''0'', CHR ''1''} \<and> length ''0110000'' mod 8 \<noteq> 0
   \<and> Zoon_init (FromStr ''0110000'') empty_store = Inl InvalidArgument
   \<and> set ''01100001'' \<subseteq> {CHR ''0'', CHR ''1''} \<and> length ''01100001'' mod 8 = 0
   \<and> (\<exists>z s'. Zoon_init (FromStr ''01100001'') empty_store = Inr (z, s')
          \<and> length (bytes_of s' z) = 1 \<and> bit (bytes_of s' z ! 0) 6 \<and> \<not> bit (bytes_of s' z ! 0) 7)"
proof -
  have h1: "\<not> set ''01100002'' \<subseteq> {CHR ''0'', CHR ''1''}"
    by simp
  have h2: "set ''0110000'' \<subseteq> {CHR ''0'', CHR ''1''} \<and> length ''0110000'' mod 8 \<noteq> 0"
    by simp
  have h3: "set ''01100001'' \<subseteq> {CHR ''0'', CHR ''1''} \<and> length ''01100001'' mod 8 = 0"
    by simp
  note c1 = C8_bit_literal [of "''01100002''" empty_store, THEN conjunct1, rule_format, OF h1]
  note c2 = C8_bit_literal [of "''0110000''" empty_store, THEN conjunct2, THEN conjunct1,
      rule_format, OF h2]
  note c3 = C8_bit_literal [of "''01100001''" empty_store, THEN conjunct2, THEN conjunct2,
      rule_format, OF h3]
  from c3 obtain z s' where z: "Zoon_init (FromStr ''01100001'') empty_store = Inr (z, s')"
    and l: "length (bytes_of s' z) = length ''01100001'' div 8"
    and bits: "\<And>i j. i < length ''01100001'' div 8 \<and> j < 8 \<Longrightarrow>
                 bit (bytes_of s' z ! i) (7 - j) \<longleftrightarrow> ''01100001'' ! (8 * i + j) = CHR ''1''"
    by blast
  have "bit (bytes_of s' z ! 0) 6"
    using bits [of 0 1] by simp
  moreover have "\<not> bit (bytes_of s' z ! 0) 7"
    using bits [of 0 0] by simp
  moreover have "length (bytes_of s' z) = 1"
    using l by simp
  ultimately have "\<exists>z s'. Zoon_init (FromStr ''01100001'') empty_store = Inr (z, s')
          \<and> length (bytes_of s' z) = 1 \<and> bit (bytes_of s' z ! 0) 6 \<and> \<not> bit (bytes_of s' z ! 0) 7"
    using z by blast
  then show ?thesis
    using h1 h2 h3 c1 c2 by blast
qed

text \<open>
  C10. \<open>delete\<close> checks no bounds: for all non-negative \<open>start\<close> and \<open>stop\<close> it returns
  an entity, whose bytes are the first \<open>start\<close> bytes followed by the bytes from \<open>stop\<close>
  on. A \<open>stop\<close> beyond the length behaves as the length. When \<open>stop < start\<close> the bytes
  of the region from \<open>stop\<close> to \<open>min start n\<close> occur twice, and the result is longer than
  the receiver by the length of that region.
\<close>

theorem C10_delete_unchecked:
  assumes "well_formed s e" "0 \<le> start" "0 \<le> stop"
  shows "\<exists>m s'. delete e start stop s = Inr (m, s')
           \<and> bytes_of s' m = take (nat start) (bytes_of s e) @ drop (nat stop) (bytes_of s e)
           \<and> (int (length (bytes_of s e)) < stop \<longrightarrow>
                delete e start stop s = delete e start (int (length (bytes_of s e))) s)
           \<and> (stop < start \<longrightarrow>
                bytes_of s' m =
                  take (nat stop) (bytes_of s e)
                  @ drop (nat stop) (take (nat start) (bytes_of s e))
                  @ drop (nat stop) (take (nat start) (bytes_of s e))
                  @ drop (min (nat start) (length (bytes_of s e))) (bytes_of s e)
                \<and> length (bytes_of s' m) =
                    length (bytes_of s e)
                    + length (drop (nat stop) (take (nat start) (bytes_of s e))))"
proof -
  let ?xs = "bytes_of s e"
  let ?r = "take (nat start) ?xs @ drop (nat stop) ?xs"
  let ?m = "Zoon (Suc (next_free s))"
  let ?s' = "s\<lparr>arrays := (arrays s)(next_free s := ?xs, Suc (next_free s) := ?r),
               next_free := Suc (Suc (next_free s))\<rparr>"
  have sl: "slice_to start ?xs @ slice_from stop ?xs = ?r"
    using assms(2,3) by (simp add: slice_to_nonneg slice_from_nonneg)
  have d: "delete e start stop s = Inr (?m, ?s')"
    by (simp add: delete_result [OF assms(1)] sl)
  have b: "bytes_of ?s' ?m = ?r"
    by (simp add: bytes_of_def)
  have clamp: "int (length ?xs) < stop \<longrightarrow> delete e start stop s = delete e start (int (length ?xs)) s"
    by (simp add: delete_result [OF assms(1)] slice_from_clamped)
  have dup: "stop < start \<longrightarrow>
               ?r = take (nat stop) ?xs @ drop (nat stop) (take (nat start) ?xs)
                    @ drop (nat stop) (take (nat start) ?xs)
                    @ drop (min (nat start) (length ?xs)) ?xs"
  proof
    assume "stop < start"
    then have "nat stop < nat start"
      using assms(3) by simp
    then show "?r = take (nat stop) ?xs @ drop (nat stop) (take (nat start) ?xs)
                    @ drop (nat stop) (take (nat start) ?xs)
                    @ drop (min (nat start) (length ?xs)) ?xs"
      by (rule overlap_split)
  qed
  have ln: "stop < start \<longrightarrow>
              length ?r = length ?xs + length (drop (nat stop) (take (nat start) ?xs))"
  proof
    assume "stop < start"
    then have lt: "nat stop < nat start"
      using assms(3) by simp
    have l1: "length ?r = min (nat start) (length ?xs) + (length ?xs - nat stop)"
      by simp
    have l2: "length (drop (nat stop) (take (nat start) ?xs))
                = min (nat start) (length ?xs) - nat stop"
      by simp
    show "length ?r = length ?xs + length (drop (nat stop) (take (nat start) ?xs))"
      using lt unfolding l1 l2 by arith
  qed
  show ?thesis
    using d b clamp dup ln by (metis (no_types, lifting))
qed

theorem C10_witness:
  "well_formed store_a (Zoon 0) \<and> (0::int) \<le> 2 \<and> (0::int) \<le> 1
   \<and> (\<exists>m s'. delete (Zoon 0) 2 1 store_a = Inr (m, s')
          \<and> bytes_of s' m = [0x61, 0x62, 0x62, 0x63])
   \<and> (\<exists>m s'. delete (Zoon 0) 1 7 store_a = Inr (m, s') \<and> bytes_of s' m = [0x61]
          \<and> delete (Zoon 0) 1 7 store_a = delete (Zoon 0) 1 3 store_a)"
proof -
  have wf: "well_formed store_a (Zoon 0)"
    by (simp add: well_formed_def store_a_def)
  have b: "bytes_of store_a (Zoon 0) = [0x61, 0x62, 0x63]"
    by (simp add: bytes_of_def store_a_def)
  have "\<exists>m s'. delete (Zoon 0) 2 1 store_a = Inr (m, s')
          \<and> bytes_of s' m = [0x61, 0x62, 0x62, 0x63]"
    using C10_delete_unchecked [OF wf, of 2 1] by (auto simp: b)
  moreover have "\<exists>m s'. delete (Zoon 0) 1 7 store_a = Inr (m, s') \<and> bytes_of s' m = [0x61]
          \<and> delete (Zoon 0) 1 7 store_a = delete (Zoon 0) 1 3 store_a"
    using C10_delete_unchecked [OF wf, of 1 7] by (auto simp: b)
  ultimately show ?thesis
    using wf by simp
qed

section \<open>Claims about the Process Runner\<close>



text \<open>
  C6. When the executable named by the command cannot be found, the result has the
  status kind filenotfounderror, the exit code 2 on every host, an empty output and an
  error detail that contains the missing path; for the path of \<^verbatim>\<open>test_run_badpath\<close>
  it is the tuple that test expects.
\<close>

theorem C6_missing_executable:
  "h command = LaunchFailed path \<Longrightarrow>
   status_kind (run h command timeout) = ''filenotfounderror''
   \<and> exit_code (run h command timeout) = 2
   \<and> stdout_text (run h command timeout) = []
   \<and> sublist path (error_detail (run h command timeout))
   \<and> (command = BADPATH \<and> path = BADPATH \<longrightarrow> test_run_badpath (run h command timeout))"
proof -
  assume "h command = LaunchFailed path"
  then have r: "run h command timeout = (2, ''filenotfounderror'', [], no_such_file path)"
    by (rule run_launch_failed)
  have "sublist path ((''[Errno 2] No such file or directory: '' @ quoted path @ '': ''
                        @ [CHR 0x27]) @ path @ [CHR 0x27])"
    by (rule sublist_appendI)
  then have "sublist path (no_such_file path)"
    by (simp add: no_such_file_def quoted_def)
  moreover have "test_run_badpath (2, ''filenotfounderror'', [], no_such_file BADPATH)"
    by (simp add: test_run_badpath_def no_such_file_def quoted_def)
  ultimately show ?thesis
    unfolding r by (simp add: status_kind_def exit_code_def stdout_text_def error_detail_def)
qed

theorem C6_witness:
  "example_host BADPATH = LaunchFailed BADPATH
   \<and> run example_host BADPATH 1 = (2, ''filenotfounderror'', [], no_such_file BADPATH)
   \<and> sublist BADPATH (error_detail (run example_host BADPATH 1))
   \<and> test_run_badpath (run example_host BADPATH 1)"
  using example_host_badpath
    C6_missing_executable [where h = example_host, OF example_host_badpath, of 1]
    run_launch_failed [where h = example_host, OF example_host_badpath, of 1]
  by simp

text \<open>
  C7, as stated: a command that outlasts its timeout succeeds under a timeout larger
  than its run time. A process that runs for 2 seconds and exits with status 1 times out
  under a timeout of 1 and gives calledprocesserror, not success, under a timeout of 3.
\<close>

theorem C7_counterexample:
  "example_host ''./sleep_then_fail'' = Launched sleep_then_fail
   \<and> enat 1 < run_time sleep_then_fail
   \<and> run example_host ''./sleep_then_fail'' 1 = (124, ''timeoutexpired'', [], [])
   \<and> run_time sleep_then_fail < enat 3
   \<and> run example_host ''./sleep_then_fail'' 3 = (1, ''calledprocesserror'', [], [])
   \<and> status_kind (run example_host ''./sleep_then_fail'' 3) \<noteq> ''success''"
proof -
  have t1: "run example_host ''./sleep_then_fail'' 1 = (124, ''timeoutexpired'', [], [])"
    using example_host_sleep_fail sleep_then_fail_times(1) by (rule run_timed_out)
  have "\<not> enat 3 < run_time sleep_then_fail"
    using sleep_then_fail_times(2) by simp
  then have t3: "run example_host ''./sleep_then_fail'' 3 = (1, ''calledprocesserror'', [], [])"
    using run_completed [where h = example_host, OF example_host_sleep_fail]
    by (simp add: sleep_then_fail_def)
  have "status_kind (run example_host ''./sleep_then_fail'' 3) \<noteq> ''success''"
    unfolding t3 by (simp add: status_kind_def)
  then show ?thesis
    using example_host_sleep_fail sleep_then_fail_times t1 t3 by blast
qed

text \<open>
  C7, amended: when the run time of the process exceeds the timeout, the result is
  exactly 124, timeoutexpired and two empty strings, whatever the process's own exit
  status; and under any timeout larger than its run time the same command gives success
  provided the process exits with status 0.
\<close>

theorem C7_timeout:
  "h command = Launched p \<Longrightarrow> enat timeout < run_time p \<Longrightarrow>
   run h command timeout = (124, ''timeoutexpired'', [], [])
   \<and> (\<forall>longer. run_time p < enat longer \<and> exit_status p = 0 \<longrightarrow>
          run h command longer = (0, ''success'', stdout p, [])
          \<and> status_kind (run h command longer) = ''success'')"
proof (intro conjI allI impI)
  assume l: "h command = Launched p" and "enat timeout < run_time p"
  then show "run h command timeout = (124, ''timeoutexpired'', [], [])"
    by (rule run_timed_out)
  fix longer
  assume a: "run_time p < enat longer \<and> exit_status p = 0"
  then have "\<not> enat longer < run_time p"
    by (auto dest: order.asym)
  from run_completed [where h = h, OF l this] a
  show r: "run h command longer = (0, ''success'', stdout p, [])"
    by simp
  show "status_kind (run h command longer) = ''success''"
    unfolding r by (simp add: status_kind_def)
qed

theorem C7_witness:
  "example_host ''sleep 2'' = Launched sleep_2 \<and> enat 1 < run_time sleep_2
   \<and> test_run_timeout (run example_host ''sleep 2'' 1)
   \<and> run_time sleep_2 < enat 3 \<and> exit_status sleep_2 = 0
   \<and> test_run_no_timeout (run example_host ''sleep 2'' 3)
   \<and> status_kind (run example_host ''sleep 2'' 3) = ''success''"
proof -
  have z: "exit_status sleep_2 = 0" "stdout sleep_2 = []"
    by (simp_all add: sleep_2_def)
  note c7 = C7_timeout [where h = example_host, OF example_host_sleep sleep_2_times(1)]
  have "test_run_timeout (run example_host ''sleep 2'' 1)"
    using c7 by (simp add: test_run_timeout_def)
  moreover have "run example_host ''sleep 2'' 3 = (0, ''success'', stdout sleep_2, [])
                 \<and> status_kind (run example_host ''sleep 2'' 3) = ''success''"
    using c7 sleep_2_times(2) z(1) by blast
  moreover from this have "test_run_no_timeout (run example_host ''sleep 2'' 3)"
    by (simp add: test_run_no_timeout_def z(2))
  ultimately show ?thesis
    using example_host_sleep sleep_2_times z(1) by blast
qed

end
